theory Spec2Isabelle
  imports Main "HOL-Library.DAList" "HOL-Library.Sublist"
begin

section \<open>The search engine of netzob (SearchEngine.py)\<close>

text \<open>
  The engine looks for a typed reference value inside a message. It expands the value
  into its mutations (one bit sequence per encoding label), builds one search task per
  mutation, runs the bit matcher of every task on the bit serialisation of the message,
  keeps the tasks that matched and, when asked to, tags every match range on the message.

  Python raises exceptions: here a function that may raise returns a sum, \<open>Inl\<close> the
  exception. The only exception the engine raises itself is \<open>TypeError\<close> (the
  specification calls it \<open>InvalidInputError\<close>); \<open>OtherError\<close> stands for whatever a
  collaborator raises.
\<close>

datatype exn = TypeError string | OtherError string

text \<open>
  A Python object where the code tests \<open>x is None\<close> and \<open>isinstance(x, C)\<close>: it is
  \<open>None\<close>, an instance of the class \<open>C\<close>, or an instance of another class.
\<close>

datatype 'a pyobj = PyNone | PyInst 'a | PyOther

text \<open>A \<open>bitarray\<close> is a list of bits.\<close>

type_synonym bitarray = "bool list"

text \<open>
  \<open>SearchTask(mutation, mutationType)\<close>: the class is declared outside SearchEngine.py,
  the engine reads its attribute \<open>data\<close> (the bits of the mutation).
\<close>

record SearchTask =
  task_data :: bitarray
  mutationType :: string

text \<open>\<open>SearchResult(target, searchTask, ranges)\<close>; \<open>SearchResults\<close> is a list of them.\<close>

record SearchResult =
  target :: bitarray
  searchTask :: SearchTask
  ranges :: "(nat \<times> nat) list"

type_synonym SearchResults = "SearchResult list"

text \<open>\<open>HighlightFunction(startPos, endPos)\<close>.\<close>

record HighlightFunction =
  startPos :: nat
  endPos :: nat

text \<open>
  The two attributes of a message the engine touches: its bytes (a Python 2 \<open>str\<close>) and
  its list of visualization functions. Every other attribute is in the record's extension.
\<close>

record AbstractMessage =
  msg_data :: string
  visualizationFunctions :: "HighlightFunction list"

text \<open>
  The functions the engine calls and SearchEngine.py does not define are parameters:
  \<open>AbstractType.normalize\<close>, the \<open>mutate\<close> method of the normalised value (a dict from
  encoding label to bits, so an association list with distinct keys, in iteration order),
  \<open>TypeConverter.convert(_, Raw, BitArray)\<close> and the method \<open>search\<close> of \<open>bitarray\<close>.
  Each of them may raise.
\<close>

record ('d, 'a) collaborators =
  normalize :: "'d \<Rightarrow> exn + 'a option"
  mutate :: "'a \<Rightarrow> exn + (string, bitarray) alist"
  convert :: "string \<Rightarrow> exn + bitarray pyobj"
  bitarray_search :: "bitarray \<Rightarrow> bitarray \<Rightarrow> exn + nat list"

text \<open>
  The log of a call: every call to a collaborator and every append to the message's
  visualization functions, in program order.
\<close>

datatype event =
    EvNormalize
  | EvMutate
  | EvConvert
  | EvMatch SearchTask
  | EvHighlight nat nat

subsection \<open>\<open>SearchEngine.__search\<close>\<close>

text \<open>
  The body of the loop over the search cases, with \<open>results\<close> the results appended so
  far and \<open>tr\<close> the log so far. The guard raises for the whole call; \<open>results\<close> is
  then lost.
\<close>

fun search_loop ::
  "(bitarray \<Rightarrow> bitarray \<Rightarrow> exn + nat list) \<Rightarrow> (bitarray pyobj \<times> SearchTask pyobj) list \<Rightarrow>
   SearchResults \<Rightarrow> event list \<Rightarrow> (exn + SearchResults) \<times> event list" where
  "search_loop bsearch [] results tr = (Inr results, tr)"
| "search_loop bsearch ((PyInst tgt, PyInst st) # searchCases) results tr =
     (case bsearch tgt (task_data st) of
        Inl e \<Rightarrow> (Inl e, tr @ [EvMatch st])
      | Inr found \<Rightarrow>
          (let rs = map (\<lambda>startIndex. (startIndex, startIndex + length (task_data st))) found
           in search_loop bsearch searchCases
                (if length rs > 0
                 then results @ [\<lparr>target = tgt, searchTask = st, ranges = rs\<rparr>]
                 else results)
                (tr @ [EvMatch st])))"
| "search_loop bsearch ((tgt, st) # searchCases) results tr =
     (Inl (TypeError ''Each search case must a tupple made of a bitarray and a SearchTask instance''), tr)"

definition SearchEngine_search ::
  "(bitarray \<Rightarrow> bitarray \<Rightarrow> exn + nat list) \<Rightarrow> (bitarray pyobj \<times> SearchTask pyobj) list option \<Rightarrow>
   (exn + SearchResults) \<times> event list" where
  "SearchEngine_search bsearch searchCases =
     (case searchCases of
        None \<Rightarrow> (Inl (TypeError ''There should be at least one search case.''), [])
      | Some cs \<Rightarrow> search_loop bsearch cs [] [])"

subsection \<open>\<open>SearchEngine.buildSearchTasks\<close>\<close>

definition buildSearchTasks ::
  "('d, 'a) collaborators \<Rightarrow> 'a option \<Rightarrow> (exn + SearchTask list) \<times> event list" where
  "buildSearchTasks env data =
     (case data of
        None \<Rightarrow> (Inl (TypeError ''The data cannot be None''), [])
      | Some d \<Rightarrow>
          (case mutate env d of
             Inl e \<Rightarrow> (Inl e, [EvMutate])
           | Inr mutations \<Rightarrow>
               (Inr (map (\<lambda>(mutationType, mutation).
                            \<lparr>task_data = mutation, mutationType = mutationType\<rparr>)
                         (DAList.impl_of mutations)),
                [EvMutate])))"

subsection \<open>\<open>SearchEngine.searchDataInMessage\<close> and \<open>SearchEngine.searchInMessage\<close>\<close>

text \<open>The two loops that tag the results: one highlight per range, in order.\<close>

primrec tag_ranges ::
  "(nat \<times> nat) list \<Rightarrow> 'm AbstractMessage_scheme \<times> event list \<Rightarrow>
   'm AbstractMessage_scheme \<times> event list" where
  "tag_ranges [] s = s"
| "tag_ranges (r # rs) s =
     tag_ranges rs
       (fst s\<lparr>visualizationFunctions :=
                visualizationFunctions (fst s) @ [\<lparr>startPos = fst r, endPos = snd r\<rparr>]\<rparr>,
        snd s @ [EvHighlight (fst r) (snd r)])"

primrec tag_results ::
  "SearchResults \<Rightarrow> 'm AbstractMessage_scheme \<times> event list \<Rightarrow>
   'm AbstractMessage_scheme \<times> event list" where
  "tag_results [] s = s"
| "tag_results (searchResult # searchResults) s =
     tag_results searchResults (tag_ranges (ranges searchResult) s)"

text \<open>
  The call returns its result (or the exception), the message as the call leaves it, and
  the log.
\<close>

definition searchDataInMessage ::
  "('d, 'a) collaborators \<Rightarrow> 'd option \<Rightarrow> 'm AbstractMessage_scheme option \<Rightarrow> bool \<Rightarrow>
   (exn + SearchResults) \<times> 'm AbstractMessage_scheme option \<times> event list" where
  "searchDataInMessage env data message addTags =
     (case data of
        None \<Rightarrow> (Inl (TypeError ''Data cannot be None''), message, [])
      | Some d \<Rightarrow>
     (case message of
        None \<Rightarrow> (Inl (TypeError ''Message cannot be None''), message, [])
      | Some m \<Rightarrow>
     (case normalize env d of
        Inl e \<Rightarrow> (Inl e, message, [EvNormalize])
      | Inr normedData \<Rightarrow>
     (case buildSearchTasks env normedData of
        (Inl e, tr1) \<Rightarrow> (Inl e, message, EvNormalize # tr1)
      | (Inr searchTasks, tr1) \<Rightarrow>
     (case convert env (msg_data m) of
        Inl e \<Rightarrow> (Inl e, message, EvNormalize # tr1 @ [EvConvert])
      | Inr tgt \<Rightarrow>
     (case SearchEngine_search (bitarray_search env)
             (Some (List.product [tgt] (map PyInst searchTasks))) of
        (Inl e, tr2) \<Rightarrow> (Inl e, message, EvNormalize # tr1 @ [EvConvert] @ tr2)
      | (Inr searchResults, tr2) \<Rightarrow>
          (if addTags
           then (let (m', tr3) = tag_results searchResults (m, EvNormalize # tr1 @ [EvConvert] @ tr2)
                 in (Inr searchResults, Some m', tr3))
           else (Inr searchResults, message, EvNormalize # tr1 @ [EvConvert] @ tr2))))))))"

text \<open>\<open>searchInMessage(data, message, addTags=True)\<close>: the flag may be left out.\<close>

definition searchInMessage ::
  "('d, 'a) collaborators \<Rightarrow> 'd option \<Rightarrow> 'm AbstractMessage_scheme option \<Rightarrow> bool option \<Rightarrow>
   (exn + SearchResults) \<times> 'm AbstractMessage_scheme option \<times> event list" where
  "searchInMessage env data message addTags =
     searchDataInMessage env data message (case addTags of None \<Rightarrow> True | Some b \<Rightarrow> b)"

subsection \<open>The collaborators, as the specification describes them\<close>

text \<open>
  Modelled from the spec: the bit matcher, the method \<open>search\<close> of the \<open>bitarray\<close>
  package, is not in SearchEngine.py. The specification (4.2): a needle of zero length
  never matches; otherwise every start offset \<open>i\<close> with
  \<open>haystack[i : i+len(needle)] == needle\<close>, in ascending order, overlaps included.
  \<open>slice\<close> is Python's \<open>xs[i:j]\<close> for \<open>i \<le> j\<close>.
\<close>

definition slice :: "'a list \<Rightarrow> nat \<Rightarrow> nat \<Rightarrow> 'a list" where
  "slice xs i j = take (j - i) (drop i xs)"

text \<open>
  Modelled from the spec: \<open>findAll(haystack, needle)\<close> of the specification (4.2), which
  the source calls as \<open>target.search(searchTask.data)\<close>.
\<close>

definition findAll :: "bitarray \<Rightarrow> bitarray \<Rightarrow> nat list" where
  "findAll haystack needle =
     (if length needle = 0 then []
      else filter (\<lambda>i. slice haystack i (i + length needle) = needle) [0..<Suc (length haystack)])"

text \<open>
  Modelled from the spec: the mutation generator, the method \<open>mutate\<close> of the typed
  value, is not in SearchEngine.py. The specification (3 and 4.1): a fixed catalogue of
  labelled encodings is applied to the value; an encoding that fails for this value is
  skipped; a mutation with an empty bit sequence is discarded; labels are unique within
  one expansion.
\<close>

primrec expand_list ::
  "(string \<times> ('a \<Rightarrow> bitarray option)) list \<Rightarrow> 'a \<Rightarrow> (string \<times> bitarray) list" where
  "expand_list [] v = []"
| "expand_list (entry # catalogue) v =
     (case snd entry v of
        None \<Rightarrow> expand_list catalogue v
      | Some bits \<Rightarrow>
          if bits = [] then expand_list catalogue v
          else (fst entry, bits) # expand_list catalogue v)"

text \<open>
  Modelled from the spec: \<open>expand(value)\<close> of the specification (4.1), as a dict: the
  labels of the catalogue are distinct, and so are those of the expansion.
\<close>

lift_definition expand ::
  "(string, 'a \<Rightarrow> bitarray option) alist \<Rightarrow> 'a \<Rightarrow> (string, bitarray) alist" is expand_list
proof goal_cases
  case (1 catalogue v)
  have labels: "fst ` set (expand_list xs v) \<subseteq> fst ` set xs" for xs
    by (induction xs) (auto split: option.splits)
  have "distinct (map fst xs) \<Longrightarrow> distinct (map fst (expand_list xs v))" for xs
  proof (induction xs)
    case Nil
    show ?case by simp
  next
    case (Cons entry xs)
    then have "fst entry \<notin> fst ` set (expand_list xs v)"
      using labels [of xs] by auto
    with Cons show ?case
      by (simp split: option.splits)
  qed
  with 1 show ?case
    by simp
qed

text \<open>
  Modelled from the spec: the bit matcher as the collaborator \<open>search\<close> of \<open>bitarray\<close>;
  it never raises on two bit sequences.
\<close>

definition spec_search :: "bitarray \<Rightarrow> bitarray \<Rightarrow> exn + nat list" where
  "spec_search haystack needle = Inr (findAll haystack needle)"

subsection \<open>Notions used in the statements\<close>

text \<open>\<open>isinstance(x, C)\<close> for an object that is \<open>None\<close>, a \<open>C\<close> or something else.\<close>

fun isinstance :: "'a pyobj \<Rightarrow> bool" where
  "isinstance (PyInst x) = True"
| "isinstance x = False"

text \<open>A well-formed search case whose mutation bits occur nowhere in its target.\<close>

fun absent_in_target :: "bitarray pyobj \<times> SearchTask pyobj \<Rightarrow> bool" where
  "absent_in_target (PyInst tgt, PyInst st) = (\<not> sublist (task_data st) tgt)"
| "absent_in_target c = False"

text \<open>The highlights of a result collection: one per range, in the order of the results.\<close>

definition highlights_of :: "SearchResults \<Rightarrow> HighlightFunction list" where
  "highlights_of rs =
     concat (map (\<lambda>r. map (\<lambda>(s, e). \<lparr>startPos = s, endPos = e\<rparr>) (ranges r)) rs)"

definition highlight_events :: "SearchResults \<Rightarrow> event list" where
  "highlight_events rs = concat (map (\<lambda>r. map (\<lambda>(s, e). EvHighlight s e) (ranges r)) rs)"

fun is_highlight :: "event \<Rightarrow> bool" where
  "is_highlight (EvHighlight s e) = True"
| "is_highlight _ = False"

text \<open>In a log, once a highlight has been appended nothing but highlights follows.\<close>

definition highlights_last :: "event list \<Rightarrow> bool" where
  "highlights_last log = list_all is_highlight (dropWhile (\<lambda>e. \<not> is_highlight e) log)"

text \<open>
  What the loop of \<open>__search\<close> computes, without its accumulators: the results of a list
  of cases, the log of a list of cases, and the tasks of a list of cases. They are
  proved equal to the loop below and serve in the proofs only.
\<close>

fun results_of ::
  "(bitarray \<Rightarrow> bitarray \<Rightarrow> exn + nat list) \<Rightarrow> (bitarray pyobj \<times> SearchTask pyobj) list \<Rightarrow>
   exn + SearchResults" where
  "results_of b [] = Inr []"
| "results_of b ((PyInst tgt, PyInst st) # cs) =
     (case b tgt (task_data st) of
        Inl e \<Rightarrow> Inl e
      | Inr found \<Rightarrow>
          (case results_of b cs of
             Inl e \<Rightarrow> Inl e
           | Inr rs \<Rightarrow>
               Inr ((if found = [] then []
                     else [\<lparr>target = tgt, searchTask = st,
                            ranges = map (\<lambda>i. (i, i + length (task_data st))) found\<rparr>]) @ rs)))"
| "results_of b (c # cs) =
     Inl (TypeError ''Each search case must a tupple made of a bitarray and a SearchTask instance'')"

fun log_of ::
  "(bitarray \<Rightarrow> bitarray \<Rightarrow> exn + nat list) \<Rightarrow> (bitarray pyobj \<times> SearchTask pyobj) list \<Rightarrow>
   event list" where
  "log_of b [] = []"
| "log_of b ((PyInst tgt, PyInst st) # cs) =
     EvMatch st # (case b tgt (task_data st) of Inl e \<Rightarrow> [] | Inr found \<Rightarrow> log_of b cs)"
| "log_of b (c # cs) = []"

fun tasks_of :: "(bitarray pyobj \<times> SearchTask pyobj) list \<Rightarrow> SearchTask list" where
  "tasks_of [] = []"
| "tasks_of ((tgt, PyInst st) # cs) = st # tasks_of cs"
| "tasks_of (c # cs) = tasks_of cs"

subsection \<open>A concrete configuration for the examples\<close>

text \<open>
  The reference value is given by its bits. The catalogue has three encodings: the bits
  as they are, the bits reversed, and the bits after the first byte (empty for a value of
  one byte or less). A message byte is read most significant bit first.
\<close>

definition char_bits :: "char \<Rightarrow> bitarray" where
  "char_bits c = map (\<lambda>i. odd ((of_char c :: nat) div 2 ^ i)) [7, 6, 5, 4, 3, 2, 1, 0]"

definition demo_catalogue :: "(string, bitarray \<Rightarrow> bitarray option) alist" where
  "demo_catalogue =
     DAList.update ''tail(8)'' (\<lambda>v. Some (drop 8 v))
       (DAList.update ''reversed'' (\<lambda>v. Some (rev v))
          (DAList.update ''bits'' Some DAList.empty))"

definition demo :: "(bitarray, bitarray) collaborators" where
  "demo = \<lparr>normalize = (\<lambda>d. Inr (Some d)),
           mutate = (\<lambda>v. Inr (expand demo_catalogue v)),
           convert = (\<lambda>s. Inr (PyInst (concat (map char_bits s)))),
           bitarray_search = spec_search\<rparr>"

definition demo_message :: AbstractMessage where
  "demo_message = \<lparr>msg_data = ''A'', visualizationFunctions = []\<rparr>"

definition demo_target :: bitarray where
  "demo_target = [False, True, False, False, False, False, False, True]"

definition demo_results :: SearchResults where
  "demo_results =
     [\<lparr>target = demo_target,
       searchTask = \<lparr>task_data = [True, False], mutationType = ''bits''\<rparr>,
       ranges = [(1, 3)]\<rparr>,
      \<lparr>target = demo_target,
       searchTask = \<lparr>task_data = [False, True], mutationType = ''reversed''\<rparr>,
       ranges = [(0, 2), (6, 8)]\<rparr>]"

section \<open>Properties of the search engine\<close>

subsection \<open>The loop of \<open>__search\<close>\<close>

lemma results_of_sound:
  "results_of b cs = Inr rs \<Longrightarrow>
   (\<forall>r \<in> set rs. searchTask r \<in> set (tasks_of cs) \<and>
      (\<exists>found. b (target r) (task_data (searchTask r)) = Inr found \<and> found \<noteq> [] \<and>
         ranges r = map (\<lambda>i. (i, i + length (task_data (searchTask r)))) found))"
proof (induction b cs arbitrary: rs rule: results_of.induct)
  case (2 b tgt st cs)
  from "2.prems" obtain found rs'
    where f: "b tgt (task_data st) = Inr found" and r: "results_of b cs = Inr rs'"
      and rs: "rs = (if found = [] then []
                     else [\<lparr>target = tgt, searchTask = st,
                            ranges = map (\<lambda>i. (i, i + length (task_data st))) found\<rparr>]) @ rs'"
    by (auto split: sum.splits)
  from "2.IH" [OF f r] f rs show ?case
    by auto
qed simp_all

lemma results_of_guard:
  "(tgt, st) \<in> set cs \<Longrightarrow> \<not> (\<exists>t s. tgt = PyInst t \<and> st = PyInst s) \<Longrightarrow> isl (results_of b cs)"
  by (induction b cs rule: results_of.induct) (auto split: sum.splits)

lemma results_of_guard_msg:
  assumes "(tgt, st) \<in> set cs" and "\<not> (\<exists>t s. tgt = PyInst t \<and> st = PyInst s)"
    and "\<forall>h n e. b h n \<noteq> Inl e"
  shows "results_of b cs = Inl (TypeError ''Each search case must a tupple made of a bitarray and a SearchTask instance'')"
  using assms
  by (induction b cs rule: results_of.induct) (auto split: sum.splits)

lemma results_of_skip:
  "b t (task_data st) = Inr [] \<Longrightarrow>
   results_of b (cs1 @ (PyInst t, PyInst st) # cs2) = results_of b (cs1 @ cs2)"
  by (induction b cs1 rule: results_of.induct) (auto split: sum.splits)

lemma findAll_sublist: "findAll h n \<noteq> [] \<Longrightarrow> sublist n h"
proof -
  assume "findAll h n \<noteq> []"
  then obtain i where "i \<in> set (findAll h n)" by (cases "findAll h n") auto
  then have "take (length n) (drop i h) = n"
    by (auto simp: findAll_def slice_def split: if_splits)
  then have "h = take i h @ n @ drop (length n) (drop i h)"
    by (metis append_take_drop_id)
  then show ?thesis unfolding sublist_def by blast
qed

lemma slice_bound: "n \<noteq> [] \<Longrightarrow> slice h i (i + length n) = n \<Longrightarrow> i < length h"
  by (cases "i < length h") (auto simp: slice_def)

lemma findAll_set:
  "n \<noteq> [] \<Longrightarrow> set (findAll h n) = {i. slice h i (i + length n) = n}"
  using slice_bound [of n h] by (auto simp: findAll_def)

lemma findAll_sorted: "sorted (findAll h n) \<and> distinct (findAll h n)"
  by (simp add: findAll_def sorted_wrt_filter del: upt_Suc)

lemma tag_ranges_eq:
  "tag_ranges rs s =
     (fst s\<lparr>visualizationFunctions :=
              visualizationFunctions (fst s) @ map (\<lambda>(s, e). \<lparr>startPos = s, endPos = e\<rparr>) rs\<rparr>,
      snd s @ map (\<lambda>(s, e). EvHighlight s e) rs)"
  by (induction rs arbitrary: s) (simp_all add: case_prod_beta)

lemma tag_results_eq:
  "tag_results rs s =
     (fst s\<lparr>visualizationFunctions := visualizationFunctions (fst s) @ highlights_of rs\<rparr>,
      snd s @ highlight_events rs)"
  by (induction rs arbitrary: s) (simp_all add: tag_ranges_eq highlights_of_def highlight_events_def)

lemma results_of_distinct:
  "results_of b cs = Inr rs \<Longrightarrow> distinct (map mutationType (tasks_of cs)) \<Longrightarrow>
   distinct (map (\<lambda>r. mutationType (searchTask r)) rs)"
proof (induction b cs arbitrary: rs rule: results_of.induct)
  case (2 b tgt st cs)
  from "2.prems" obtain found rs'
    where f: "b tgt (task_data st) = Inr found" and r: "results_of b cs = Inr rs'"
      and rs: "rs = (if found = [] then []
                     else [\<lparr>target = tgt, searchTask = st,
                            ranges = map (\<lambda>i. (i, i + length (task_data st))) found\<rparr>]) @ rs'"
    by (auto split: sum.splits)
  have d: "distinct (map (\<lambda>r. mutationType (searchTask r)) rs')"
    using "2.IH" [OF f r] "2.prems" by simp
  have "mutationType st \<notin> (\<lambda>r. mutationType (searchTask r)) ` set rs'"
    using results_of_sound [OF r] "2.prems" by auto
  with d rs show ?case
    by auto
qed simp_all

lemma search_loop_eq:
  "search_loop b cs res tr =
     (case results_of b cs of Inl e \<Rightarrow> Inl e | Inr rs \<Rightarrow> Inr (res @ rs), tr @ log_of b cs)"
proof (induction b cs res tr rule: search_loop.induct)
  case (2 bsearch tgt st searchCases results tr)
  show ?case
  proof (cases "bsearch tgt (task_data st)")
    case (Inl e)
    then show ?thesis by simp
  next
    case (Inr found)
    from 2 [OF Inr refl] Inr show ?thesis
      by (simp add: Let_def split: sum.splits)
  qed
qed simp_all

lemma log_of_no_highlight: "list_all (\<lambda>e. \<not> is_highlight e) (log_of b cs)"
  by (induction b cs rule: log_of.induct) (auto split: sum.splits)

lemma SearchEngine_search_eq:
  "SearchEngine_search b (Some cs) =
     (results_of b cs, log_of b cs)"
  by (simp add: SearchEngine_search_def search_loop_eq split: sum.splits)

lemma tasks_of_product: "tasks_of (map (Pair tgt \<circ> PyInst) ts) = ts"
  by (induction ts) simp_all

lemma buildSearchTasks_labels:
  "buildSearchTasks env a = (Inr ts, tr) \<Longrightarrow> distinct (map mutationType ts)"
  by (auto simp: buildSearchTasks_def comp_def case_prod_beta split: option.splits sum.splits)

lemma buildSearchTasks_log:
  "buildSearchTasks env a = (r, tr) \<Longrightarrow> list_all (\<lambda>e. \<not> is_highlight e) tr"
  by (auto simp: buildSearchTasks_def split: option.splits sum.splits)

lemma sdim_result_frame:
  "msg_data m' = msg_data m \<Longrightarrow>
   fst (searchDataInMessage env d (Some m') a') = fst (searchDataInMessage env d (Some m) a)"
  by (auto simp: searchDataInMessage_def SearchEngine_search_eq tag_results_eq
           split: option.splits sum.splits prod.splits)

lemma sdim_message:
  "fst (snd (searchDataInMessage env d message a)) =
     (case fst (searchDataInMessage env d message a) of
        Inl e \<Rightarrow> message
      | Inr rs \<Rightarrow>
          if a then map_option (\<lambda>m. m\<lparr>visualizationFunctions := visualizationFunctions m @ highlights_of rs\<rparr>) message
          else message)"
  by (auto simp: searchDataInMessage_def SearchEngine_search_eq tag_results_eq
           split: option.splits sum.splits prod.splits)

lemma sdim_log:
  "snd (snd (searchDataInMessage env d message True)) =
     snd (snd (searchDataInMessage env d message False)) @
       (case fst (searchDataInMessage env d message False) of
          Inl e \<Rightarrow> [] | Inr rs \<Rightarrow> highlight_events rs)"
  by (auto simp: searchDataInMessage_def SearchEngine_search_eq tag_results_eq
           split: option.splits sum.splits prod.splits)

lemma sdim_log_no_highlight:
  "list_all (\<lambda>e. \<not> is_highlight e) (snd (snd (searchDataInMessage env d message False)))"
  by (auto simp: searchDataInMessage_def SearchEngine_search_eq log_of_no_highlight
           split: option.splits sum.splits prod.splits dest: buildSearchTasks_log)

lemma sdim_labels:
  "fst (searchDataInMessage env d message a) = Inr rs \<Longrightarrow>
   distinct (map (\<lambda>r. mutationType (searchTask r)) rs)"
  by (auto simp: searchDataInMessage_def SearchEngine_search_eq tag_results_eq tasks_of_product
           split: option.splits sum.splits prod.splits if_splits
           dest!: buildSearchTasks_labels intro: results_of_distinct)

lemma char_bits_A: "char_bits CHR ''A'' = [False, True, False, False, False, False, False, True]"
  by (simp add: char_bits_def)

lemma find_bits: "findAll [False, True, False, False, False, False, False, True] [True, False] = [1]"
  by code_simp

lemma find_reversed: "findAll [False, True, False, False, False, False, False, True] [False, True] = [0, 6]"
  by code_simp

lemma demo_mutations:
  "DAList.impl_of (expand demo_catalogue [True, False]) = [(''bits'', [True, False]), (''reversed'', [False, True])]"
  by (simp add: expand.rep_eq demo_catalogue_def DAList.update.rep_eq DAList.empty.rep_eq)

lemma demo_run:
  "searchDataInMessage demo (Some [True, False]) (Some demo_message) False =
     (Inr demo_results, Some demo_message,
      [EvNormalize, EvMutate, EvConvert,
       EvMatch \<lparr>task_data = [True, False], mutationType = ''bits''\<rparr>,
       EvMatch \<lparr>task_data = [False, True], mutationType = ''reversed''\<rparr>])"
  by (simp add: searchDataInMessage_def demo_def buildSearchTasks_def SearchEngine_search_def
        demo_mutations char_bits_A spec_search_def find_bits find_reversed demo_message_def
        demo_results_def demo_target_def)

lemma demo_run_tagged:
  "searchDataInMessage demo (Some [True, False]) (Some demo_message) True =
     (Inr demo_results,
      Some (demo_message\<lparr>visualizationFunctions :=
              [\<lparr>startPos = 1, endPos = 3\<rparr>, \<lparr>startPos = 0, endPos = 2\<rparr>,
               \<lparr>startPos = 6, endPos = 8\<rparr>]\<rparr>),
      [EvNormalize, EvMutate, EvConvert,
       EvMatch \<lparr>task_data = [True, False], mutationType = ''bits''\<rparr>,
       EvMatch \<lparr>task_data = [False, True], mutationType = ''reversed''\<rparr>,
       EvHighlight 1 3, EvHighlight 0 2, EvHighlight 6 8])"
  by (simp add: searchDataInMessage_def demo_def buildSearchTasks_def SearchEngine_search_def
        demo_mutations char_bits_A spec_search_def find_bits find_reversed demo_message_def
        demo_results_def demo_target_def)

lemma isinstance_iff: "isinstance x \<longleftrightarrow> (\<exists>v. x = PyInst v)"
  by (cases x) simp_all

lemma findAll_absent: "\<not> sublist n h \<Longrightarrow> findAll h n = []"
  using findAll_sublist by blast

lemma results_of_absent:
  "list_all absent_in_target cs \<Longrightarrow> results_of spec_search cs = Inr []"
proof (induction cs)
  case Nil
  show ?case by simp
next
  case (Cons c cs)
  then show ?case
    by (cases c rule: absent_in_target.cases) (simp_all add: spec_search_def findAll_absent)
qed

lemma find_overlap:
  "findAll [True, False, True, False, True, False] [True, False, True, False] = [0, 2]"
  by code_simp

lemma highlight_events_all: "list_all is_highlight (highlight_events rs)"
  by (induction rs) (auto simp: highlight_events_def list_all_iff)

lemma highlights_lastI:
  "list_all (\<lambda>e. \<not> is_highlight e) pre \<Longrightarrow> list_all is_highlight post \<Longrightarrow>
   highlights_last (pre @ post)"
  by (induction pre) (auto simp: highlights_last_def list_all_iff dropWhile_append3 dest: set_dropWhileD)

lemma sdim_result_tags:
  "fst (searchDataInMessage env d message True) = fst (searchDataInMessage env d message False)"
  by (auto simp: searchDataInMessage_def SearchEngine_search_eq tag_results_eq
           split: option.splits sum.splits prod.splits)

section \<open>The claims\<close>

text \<open>
  Claim C1, as the specification states it: a task that is not a valid SearchTask fails
  alone, and the results aggregated from the tasks before it are still reported. The
  code does otherwise: with one matching task the call returns its result, and with an
  invalid case appended after it the same call returns the TypeError and no result.
\<close>

theorem search_failure_per_task_counterexample:
  "fst (SearchEngine_search spec_search
          (Some [(PyInst [True], PyInst \<lparr>task_data = [True], mutationType = ''bits''\<rparr>)])) =
     Inr [\<lparr>target = [True], searchTask = \<lparr>task_data = [True], mutationType = ''bits''\<rparr>,
            ranges = [(0, 1)]\<rparr>] \<and>
   fst (SearchEngine_search spec_search
          (Some [(PyInst [True], PyInst \<lparr>task_data = [True], mutationType = ''bits''\<rparr>),
                 (PyInst [True], PyNone)])) =
     Inl (TypeError ''Each search case must a tupple made of a bitarray and a SearchTask instance'')"
  by (simp add: SearchEngine_search_def spec_search_def findAll_def slice_def)

text \<open>
  Claim C1, amended: failure granularity is per search call. If any case of the sequence
  has a target that is not a bitarray or a task that is not a SearchTask, the whole call
  raises and returns no SearchResults, whatever was aggregated from the tasks before it;
  when the matcher itself never raises, the exception is the TypeError of the guard.
\<close>

theorem search_failure_aborts_call:
  assumes "(tgt, st) \<in> set cs" and "\<not> (isinstance tgt \<and> isinstance st)"
  shows "isl (fst (SearchEngine_search b (Some cs))) \<and>
         ((\<forall>h n e. b h n \<noteq> Inl e) \<longrightarrow>
            fst (SearchEngine_search b (Some cs)) =
              Inl (TypeError ''Each search case must a tupple made of a bitarray and a SearchTask instance''))"
  using results_of_guard [of tgt st cs b] results_of_guard_msg [of tgt st cs b] assms
  by (simp add: SearchEngine_search_eq isinstance_iff)

theorem search_failure_aborts_call_witness:
  "(PyInst [True], PyNone) \<in>
     set [(PyInst [True], PyInst \<lparr>task_data = [True], mutationType = ''bits''\<rparr>),
          (PyInst [True], PyNone)] \<and>
   \<not> (isinstance (PyInst [True]) \<and> isinstance (PyNone :: SearchTask pyobj)) \<and>
   isl (fst (SearchEngine_search spec_search
          (Some [(PyInst [True], PyInst \<lparr>task_data = [True], mutationType = ''bits''\<rparr>),
                 (PyInst [True], PyNone)])))"
  using search_failure_aborts_call
    [of "PyInst [True]" "PyNone"
        "[(PyInst [True], PyInst \<lparr>task_data = [True], mutationType = ''bits''\<rparr>),
          (PyInst [True], PyNone)]" spec_search]
  by simp

text \<open>
  Claim C2: for a non-empty needle the matcher reports exactly the start offsets \<open>i\<close>
  with \<open>haystack[i : i+len(needle)] == needle\<close>, each once and in ascending order,
  overlapping occurrences included.
\<close>

theorem findAll_offsets:
  "needle \<noteq> [] \<Longrightarrow>
   set (findAll haystack needle) = {i. slice haystack i (i + length needle) = needle} \<and>
   sorted (findAll haystack needle) \<and> distinct (findAll haystack needle)"
  using findAll_set [of needle haystack] findAll_sorted [of haystack needle] by simp

text \<open>The example of the specification: 1010 occurs in 101010 at the offsets 0 and 2.\<close>

theorem findAll_offsets_witness:
  "[True, False, True, False] \<noteq> [] \<and>
   findAll [True, False, True, False, True, False] [True, False, True, False] = [0, 2] \<and>
   {i. slice [True, False, True, False, True, False] i (i + length [True, False, True, False]) =
       [True, False, True, False]} = {0, 2}"
  using findAll_offsets [of "[True, False, True, False]" "[True, False, True, False, True, False]"]
  by (simp add: find_overlap)

text \<open>
  Claim C3: a needle of zero length matches nowhere, so a search task with empty bits
  contributes no SearchResult: the call returns what it returns without that task.
\<close>

theorem empty_needle_no_result:
  "findAll haystack [] = [] \<and>
   fst (SearchEngine_search spec_search
          (Some (cs1 @ (PyInst tgt, PyInst \<lparr>task_data = [], mutationType = label\<rparr>) # cs2))) =
   fst (SearchEngine_search spec_search (Some (cs1 @ cs2)))"
  by (simp add: SearchEngine_search_eq results_of_skip spec_search_def findAll_def)

text \<open>
  Claim C4: a SearchResult is created only with a non-empty range list; a task whose
  bits never occur in the target produces no SearchResult (every result's bits do occur
  in its target); and a call in which no task matches returns the empty collection, not
  an error.
\<close>

theorem no_match_no_result:
  "(fst (SearchEngine_search b (Some cs)) = Inr rs \<longrightarrow> (\<forall>r \<in> set rs. ranges r \<noteq> [])) \<and>
   (fst (SearchEngine_search spec_search (Some cs)) = Inr rs \<longrightarrow>
      (\<forall>r \<in> set rs. sublist (task_data (searchTask r)) (target r))) \<and>
   (list_all absent_in_target cs \<longrightarrow> fst (SearchEngine_search spec_search (Some cs)) = Inr [])"
proof (intro conjI impI)
  assume "fst (SearchEngine_search b (Some cs)) = Inr rs"
  then show "\<forall>r \<in> set rs. ranges r \<noteq> []"
    using results_of_sound [of b cs rs] by (auto simp: SearchEngine_search_eq)
next
  assume "fst (SearchEngine_search spec_search (Some cs)) = Inr rs"
  then have "results_of spec_search cs = Inr rs"
    by (simp add: SearchEngine_search_eq)
  from results_of_sound [OF this]
  show "\<forall>r \<in> set rs. sublist (task_data (searchTask r)) (target r)"
    by (auto simp: spec_search_def intro: findAll_sublist)
next
  assume "list_all absent_in_target cs"
  then show "fst (SearchEngine_search spec_search (Some cs)) = Inr []"
    by (simp add: SearchEngine_search_eq results_of_absent)
qed

theorem no_match_no_result_witness:
  "fst (SearchEngine_search spec_search
          (Some [(PyInst [True], PyInst \<lparr>task_data = [True], mutationType = ''bits''\<rparr>)])) =
     Inr [\<lparr>target = [True], searchTask = \<lparr>task_data = [True], mutationType = ''bits''\<rparr>,
            ranges = [(0, 1)]\<rparr>] \<and>
   [(0::nat, 1::nat)] \<noteq> [] \<and> sublist [True] [True] \<and>
   list_all absent_in_target
     [(PyInst [True], PyInst \<lparr>task_data = [False], mutationType = ''bits''\<rparr>)] \<and>
   fst (SearchEngine_search spec_search
          (Some [(PyInst [True], PyInst \<lparr>task_data = [False], mutationType = ''bits''\<rparr>)])) =
     Inr []"
proof -
  let ?hit = "[(PyInst [True], PyInst \<lparr>task_data = [True], mutationType = ''bits''\<rparr>)]"
  let ?miss = "[(PyInst [True], PyInst \<lparr>task_data = [False], mutationType = ''bits''\<rparr>)]"
  let ?rs = "[\<lparr>target = [True], searchTask = \<lparr>task_data = [True], mutationType = ''bits''\<rparr>,
               ranges = [(0, 1)]\<rparr>]"
  have hit: "fst (SearchEngine_search spec_search (Some ?hit)) = Inr ?rs"
    by (simp add: SearchEngine_search_def spec_search_def findAll_def slice_def)
  have miss: "list_all absent_in_target ?miss"
    by (simp add: sublist_Cons_right)
  from no_match_no_result [of spec_search ?hit ?rs] no_match_no_result [of spec_search ?miss "[]"]
    hit miss
  show ?thesis by simp
qed

text \<open>
  Claim C5: with the reference value absent, or the message absent, the call raises the
  TypeError of its first lines (the InvalidInputError of the specification) with an
  empty log: no collaborator has been called, nothing has been expanded or matched, and
  the message is as it was. \<open>buildSearchTasks\<close> raises in the same way on an absent value.
\<close>

theorem absent_input_raises_first:
  "searchDataInMessage env None message addTags =
     (Inl (TypeError ''Data cannot be None''), message, []) \<and>
   searchDataInMessage env (Some d) None addTags =
     (Inl (TypeError ''Message cannot be None''), None, []) \<and>
   buildSearchTasks env None = (Inl (TypeError ''The data cannot be None''), [])"
  by (simp add: searchDataInMessage_def buildSearchTasks_def)

text \<open>
  Claim C6: the search is deterministic and idempotent. Running the call again, on the
  message as the first run left it, returns the same results in the same order; and no
  returned collection holds two entries with the same (mutation label, ranges) pair,
  since every entry comes from a different key of the dict of mutations.
\<close>

theorem search_deterministic:
  "fst (searchDataInMessage env d
          (fst (snd (searchDataInMessage env d message addTags))) addTags) =
     fst (searchDataInMessage env d message addTags) \<and>
   (fst (searchDataInMessage env d message addTags) = Inr rs \<longrightarrow>
      distinct (map (\<lambda>r. (mutationType (searchTask r), ranges r)) rs))"
proof
  show "fst (searchDataInMessage env d
          (fst (snd (searchDataInMessage env d message addTags))) addTags) =
        fst (searchDataInMessage env d message addTags)"
  proof (cases message)
    case None
    then show ?thesis by (simp add: sdim_message split: sum.splits)
  next
    case (Some m)
    have "\<exists>m'. fst (snd (searchDataInMessage env d (Some m) addTags)) = Some m' \<and>
               msg_data m' = msg_data m"
      by (simp add: sdim_message split: sum.splits)
    then obtain m' where m': "fst (snd (searchDataInMessage env d (Some m) addTags)) = Some m'"
      and "msg_data m' = msg_data m"
      by blast
    then have "fst (searchDataInMessage env d (Some m') addTags) =
               fst (searchDataInMessage env d (Some m) addTags)"
      by (intro sdim_result_frame)
    with Some m' show ?thesis by simp
  qed
next
  show "fst (searchDataInMessage env d message addTags) = Inr rs \<longrightarrow>
        distinct (map (\<lambda>r. (mutationType (searchTask r), ranges r)) rs)"
  proof
    assume "fst (searchDataInMessage env d message addTags) = Inr rs"
    then have "distinct (map (\<lambda>r. mutationType (searchTask r)) rs)"
      by (rule sdim_labels)
    then show "distinct (map (\<lambda>r. (mutationType (searchTask r), ranges r)) rs)"
      by (auto simp: distinct_map inj_on_def)
  qed
qed

theorem search_deterministic_witness:
  "fst (searchDataInMessage demo (Some [True, False]) (Some demo_message) True) = Inr demo_results \<and>
   fst (searchDataInMessage demo (Some [True, False])
          (fst (snd (searchDataInMessage demo (Some [True, False]) (Some demo_message) True)))
          True) = Inr demo_results \<and>
   distinct (map (\<lambda>r. (mutationType (searchTask r), ranges r)) demo_results)"
  using search_deterministic [of demo "Some [True, False]" "Some demo_message" True demo_results]
  by (simp add: demo_run_tagged)

text \<open>
  Claim C7: the call never changes the bytes of the message. The message it leaves is
  the message it was given with highlights appended to its visualization functions, and
  with none appended when tagging is not requested; an absent message stays absent.
\<close>

theorem message_data_unchanged:
  "fst (snd (searchDataInMessage env d None addTags)) = None \<and>
   (\<exists>hs. fst (snd (searchDataInMessage env d (Some m) addTags)) =
            Some (m\<lparr>visualizationFunctions := visualizationFunctions m @ hs\<rparr>) \<and>
          (\<not> addTags \<longrightarrow> hs = []))"
proof
  show "fst (snd (searchDataInMessage env d None addTags)) = None"
    by (simp add: sdim_message split: sum.splits)
next
  show "\<exists>hs. fst (snd (searchDataInMessage env d (Some m) addTags)) =
            Some (m\<lparr>visualizationFunctions := visualizationFunctions m @ hs\<rparr>) \<and>
          (\<not> addTags \<longrightarrow> hs = [])"
  proof (cases "fst (searchDataInMessage env d (Some m) addTags)")
    case (Inl e)
    then have "fst (snd (searchDataInMessage env d (Some m) addTags)) =
                 Some (m\<lparr>visualizationFunctions := visualizationFunctions m @ []\<rparr>)"
      by (simp add: sdim_message)
    then show ?thesis by blast
  next
    case (Inr rs)
    then have "fst (snd (searchDataInMessage env d (Some m) addTags)) =
                 Some (m\<lparr>visualizationFunctions := visualizationFunctions m @
                                                     (if addTags then highlights_of rs else [])\<rparr>)"
      by (simp add: sdim_message)
    then show ?thesis by (intro exI [of _ "if addTags then highlights_of rs else []"]) simp
  qed
qed

theorem message_data_unchanged_witness:
  "fst (snd (searchDataInMessage demo (Some [True, False]) (Some demo_message) False)) =
     Some demo_message \<and>
   map_option msg_data
     (fst (snd (searchDataInMessage demo (Some [True, False]) (Some demo_message) True))) =
     Some ''A''"
  using message_data_unchanged [of demo "Some [True, False]" False demo_message]
    message_data_unchanged [of demo "Some [True, False]" True demo_message]
  by (auto simp: demo_message_def)

text \<open>
  Claim C8: the mutation generator discards every mutation with an empty bit sequence,
  and none is surfaced downstream: \<open>buildSearchTasks\<close> builds exactly one task per
  mutation the generator returns, so no SearchTask has empty bits.
\<close>

theorem empty_mutations_discarded:
  "(\<forall>m \<in> set (DAList.impl_of (expand catalogue v)). snd m \<noteq> []) \<and>
   (\<exists>tasks. fst (buildSearchTasks (env\<lparr>mutate := \<lambda>v. Inr (expand catalogue v)\<rparr>) (Some v)) =
              Inr tasks \<and>
            map task_data tasks = map snd (DAList.impl_of (expand catalogue v)) \<and>
            (\<forall>t \<in> set tasks. task_data t \<noteq> []))"
proof -
  have "\<forall>m \<in> set (expand_list xs v). snd m \<noteq> []" for xs
    by (induction xs) (auto split: option.splits)
  then have a: "\<forall>m \<in> set (DAList.impl_of (expand catalogue v)). snd m \<noteq> []"
    by (simp add: expand.rep_eq)
  then show ?thesis
    by (auto simp: buildSearchTasks_def case_prod_beta comp_def)
qed

text \<open>
  In the example the third encoding yields no bit for a value of two bits: the expansion
  has two mutations and two tasks are built.
\<close>

theorem empty_mutations_discarded_witness:
  "DAList.impl_of (expand demo_catalogue [True, False]) =
     [(''bits'', [True, False]), (''reversed'', [False, True])] \<and>
   fst (buildSearchTasks demo (Some [True, False])) =
     Inr [\<lparr>task_data = [True, False], mutationType = ''bits''\<rparr>,
          \<lparr>task_data = [False, True], mutationType = ''reversed''\<rparr>] \<and>
   list_all (\<lambda>t. task_data t \<noteq> [])
     [\<lparr>task_data = [True, False], mutationType = ''bits''\<rparr>,
      \<lparr>task_data = [False, True], mutationType = ''reversed''\<rparr>]"
  using empty_mutations_discarded [of demo_catalogue "[True, False]" demo]
  by (simp add: demo_mutations buildSearchTasks_def demo_def)

text \<open>
  Claim C9: annotation happens only after the full result set is computed. The log of a
  call with tagging is the whole log of the same call without tagging (every collaborator
  call, every match) followed by the highlights of the returned results; no highlight
  occurs earlier, and tagging does not change the results returned.
\<close>

theorem annotate_after_search:
  "snd (snd (searchDataInMessage env d message True)) =
     snd (snd (searchDataInMessage env d message False)) @
       (case fst (searchDataInMessage env d message False) of
          Inl e \<Rightarrow> [] | Inr rs \<Rightarrow> highlight_events rs) \<and>
   list_all (\<lambda>e. \<not> is_highlight e) (snd (snd (searchDataInMessage env d message False))) \<and>
   highlights_last (snd (snd (searchDataInMessage env d message addTags))) \<and>
   fst (searchDataInMessage env d message True) = fst (searchDataInMessage env d message False)"
proof -
  let ?log = "snd (snd (searchDataInMessage env d message False))"
  let ?hs = "case fst (searchDataInMessage env d message False) of
               Inl e \<Rightarrow> [] | Inr rs \<Rightarrow> highlight_events rs"
  have hs: "list_all is_highlight ?hs"
    by (simp add: highlight_events_all split: sum.splits)
  have "highlights_last (?log @ ?hs)"
    using sdim_log_no_highlight hs by (rule highlights_lastI)
  moreover have "highlights_last (?log @ [])"
    using sdim_log_no_highlight by (rule highlights_lastI) simp
  ultimately have "highlights_last (snd (snd (searchDataInMessage env d message addTags)))"
    by (cases addTags) (simp_all add: sdim_log)
  then show ?thesis
    by (simp add: sdim_log sdim_log_no_highlight sdim_result_tags)
qed

text \<open>
  Claim C10: \<open>searchInMessage\<close> called without the flag behaves as with the flag true: a
  successful call appends one highlight per match range to the message; only the flag
  false leaves the message as it was.
\<close>

theorem addTags_defaults_true:
  "searchInMessage env d message None = searchInMessage env d message (Some True) \<and>
   (fst (searchInMessage env d (Some m) None) = Inr rs \<longrightarrow>
      fst (snd (searchInMessage env d (Some m) None)) =
        Some (m\<lparr>visualizationFunctions := visualizationFunctions m @ highlights_of rs\<rparr>) \<and>
      length (highlights_of rs) = sum_list (map (\<lambda>r. length (ranges r)) rs)) \<and>
   fst (snd (searchInMessage env d message (Some False))) = message"
proof -
  have "length (highlights_of rs) = sum_list (map (\<lambda>r. length (ranges r)) rs)"
    by (simp add: highlights_of_def length_concat comp_def)
  then show ?thesis
    by (simp add: searchInMessage_def sdim_message split: sum.splits)
qed

theorem addTags_defaults_true_witness:
  "fst (searchInMessage demo (Some [True, False]) (Some demo_message) None) = Inr demo_results \<and>
   fst (snd (searchInMessage demo (Some [True, False]) (Some demo_message) None)) =
     Some (demo_message\<lparr>visualizationFunctions :=
             [\<lparr>startPos = 1, endPos = 3\<rparr>, \<lparr>startPos = 0, endPos = 2\<rparr>,
              \<lparr>startPos = 6, endPos = 8\<rparr>]\<rparr>) \<and>
   length (highlights_of demo_results) = 3"
proof -
  have r: "fst (searchInMessage demo (Some [True, False]) (Some demo_message) None) = Inr demo_results"
    by (simp add: searchInMessage_def demo_run_tagged)
  have h: "highlights_of demo_results =
             [\<lparr>startPos = 1, endPos = 3\<rparr>, \<lparr>startPos = 0, endPos = 2\<rparr>,
              \<lparr>startPos = 6, endPos = 8\<rparr>]"
    by (simp add: highlights_of_def demo_results_def)
  from addTags_defaults_true [of demo "Some [True, False]" "Some demo_message" demo_message demo_results]
  have "fst (searchInMessage demo (Some [True, False]) (Some demo_message) None) = Inr demo_results \<longrightarrow>
        fst (snd (searchInMessage demo (Some [True, False]) (Some demo_message) None)) =
          Some (demo_message\<lparr>visualizationFunctions :=
                  visualizationFunctions demo_message @ highlights_of demo_results\<rparr>) \<and>
        length (highlights_of demo_results) = sum_list (map (\<lambda>r. length (ranges r)) demo_results)"
    by blast
  with r show ?thesis
    by (simp add: h demo_message_def)
qed

end
